theory Spec2Isabelle
  imports Complex_Main "HOL-Library.Sublist"
begin

section \<open>TrailForge: tiling, range requests and the job pipeline\<close>

text \<open>
  The Python sources compute with \<open>float\<close>. Throughout this development a float is
  modelled by a \<open>real\<close>: arithmetic is exact, and the special values (infinities, NaN)
  do not occur. Python's unbounded integers are \<open>int\<close>, strings are \<open>string\<close>.
  Every \<open>raise\<close> of the sources is a value \<open>Inl e\<close> of a sum type.
\<close>

subsection \<open>Exceptions\<close>

datatype py_error =
    ValueError string
  | ZeroDivisionError
  | RuntimeError string
  | FileNotFoundError string
  | HTTPError string
  | OtherError string

subsection \<open>Bounding boxes (\<open>models/schemas.py\<close>)\<close>

record bbox =
  south :: real
  west :: real
  north :: real
  east :: real

text \<open>\<open>BBox.area_deg2\<close>: the product of the absolute spans.\<close>

definition area_deg2 :: "bbox \<Rightarrow> real" where
  "area_deg2 b = \<bar>north b - south b\<bar> * \<bar>east b - west b\<bar>"

subsection \<open>Tiling (\<open>services/osm_downloader.py\<close>)\<close>

text \<open>Python's \<open>round\<close> on a float: to the nearest integer, ties to the even one.\<close>

definition py_round :: "real \<Rightarrow> int" where
  "py_round x =
     (let f = \<lfloor>x\<rfloor>; d = x - of_int f
      in if d < 1 / 2 then f
         else if 1 / 2 < d then f + 1
         else if even f then f else f + 1)"

text \<open>
  The loop \<open>while n_lat * n_lon < num_tiles\<close>, which increments the smaller of the
  two grid dimensions (the latitude count on a tie).
\<close>

function ensure_enough_tiles :: "int \<Rightarrow> int \<Rightarrow> int \<Rightarrow> int \<times> int" where
  "ensure_enough_tiles n_lat n_lon num_tiles =
     (if n_lat * n_lon < num_tiles
      then (if n_lat \<le> n_lon
            then ensure_enough_tiles (n_lat + 1) n_lon num_tiles
            else ensure_enough_tiles n_lat (n_lon + 1) num_tiles)
      else (n_lat, n_lon))"
  by pat_completeness auto

lemma product_grows_lat:
  fixes a b n :: int
  assumes "1 \<le> a" "a \<le> b" "a * b < n"
  shows "nat (n - (a + 1) * b) < nat (n - a * b)"
proof -
  have "(a + 1) * b = a * b + b" by (simp add: algebra_simps)
  with assms show ?thesis by simp
qed

lemma product_grows_lon:
  fixes a b n :: int
  assumes "1 \<le> b" "b < a" "a * b < n"
  shows "nat (n - a * (b + 1)) < nat (n - a * b)"
proof -
  have "a * (b + 1) = a * b + a" by (simp add: algebra_simps)
  with assms show ?thesis by simp
qed

termination ensure_enough_tiles
proof (relation "measures [\<lambda>(a, b, n). nat (1 - a) + nat (1 - b), \<lambda>(a, b, n). nat (n - a * b)]",
       goal_cases)
  case 1
  show ?case by simp
next
  case (2 a b n)
  show ?case
  proof (cases "1 \<le> a")
    case True
    with 2 have "nat (n - (a + 1) * b) < nat (n - a * b)"
      by (intro product_grows_lat) auto
    with True 2 show ?thesis by auto
  next
    case False
    then show ?thesis by auto
  qed
next
  case (3 a b n)
  show ?case
  proof (cases "1 \<le> b")
    case True
    with 3 have "nat (n - a * (b + 1)) < nat (n - a * b)"
      by (intro product_grows_lon) auto
    with True 3 show ?thesis by auto
  next
    case False
    then show ?thesis by auto
  qed
qed

declare ensure_enough_tiles.simps [simp del]

text \<open>The two nested \<open>for\<close> loops over \<open>range(n_lat)\<close> and \<open>range(n_lon)\<close>.\<close>

definition grid_tile :: "bbox \<Rightarrow> real \<Rightarrow> real \<Rightarrow> int \<Rightarrow> int \<Rightarrow> bbox" where
  "grid_tile b lat_step lon_step i j =
     \<lparr> south = south b + of_int i * lat_step,
       west = west b + of_int j * lon_step,
       north = min (south b + of_int (i + 1) * lat_step) (north b),
       east = min (west b + of_int (j + 1) * lon_step) (east b) \<rparr>"

definition grid_tiles :: "bbox \<Rightarrow> real \<Rightarrow> real \<Rightarrow> int \<Rightarrow> int \<Rightarrow> bbox list" where
  "grid_tiles b lat_step lon_step n_lat n_lon =
     concat (map (\<lambda>i. map (\<lambda>j. grid_tile b lat_step lon_step i j) [0..n_lon - 1])
                 [0..n_lat - 1])"

text \<open>
  \<open>_compute_tiles\<close>. The float division by \<open>max_tile_area\<close> or by \<open>aspect\<close> raises
  \<open>ZeroDivisionError\<close> on a zero divisor, and \<open>math.sqrt\<close> raises \<open>ValueError\<close> on a
  negative argument.
\<close>

definition compute_tiles :: "bbox \<Rightarrow> real \<Rightarrow> py_error + bbox list" where
  "compute_tiles b max_tile_area =
     (let lat_span = north b - south b;
          lon_span = east b - west b;
          total_area = lat_span * lon_span
      in if total_area \<le> max_tile_area then Inr [b]
         else if max_tile_area = 0 then Inl ZeroDivisionError
         else
           let num_tiles = \<lceil>total_area / max_tile_area\<rceil>;
               aspect = (if 0 < lat_span then lon_span / lat_span else 1)
           in if aspect = 0 then Inl ZeroDivisionError
              else if of_int num_tiles / aspect < 0 then Inl (ValueError ''math domain error'')
              else if of_int num_tiles * aspect < 0 then Inl (ValueError ''math domain error'')
              else
                let n_lat0 = max 1 (py_round (sqrt (of_int num_tiles / aspect)));
                    n_lon0 = max 1 (py_round (sqrt (of_int num_tiles * aspect)));
                    (n_lat, n_lon) = ensure_enough_tiles n_lat0 n_lon0 num_tiles;
                    lat_step = lat_span / of_int n_lat;
                    lon_step = lon_span / of_int n_lon
                in Inr (grid_tiles b lat_step lon_step n_lat n_lon))"

subsection \<open>Range requests and downloads (\<open>api/routes.py\<close>)\<close>

text \<open>\<open>HTTPException(status_code, detail, headers)\<close>.\<close>

record http_exception =
  status_code :: nat
  detail :: string
  exc_headers :: "(string \<times> string) list"

text \<open>
  \<open>\d\<close> and \<open>int\<close> on the digit groups of the regular expression, and \<open>str\<close> of an
  integer as used by the f-strings. Header values reach the code decoded as Latin-1,
  where the only decimal digits are the ASCII ones. \<open>int\<close> is taken on digit strings of
  any length (the interpreter's optional cap on the number of digits is not modelled).
\<close>

definition is_digit :: "char \<Rightarrow> bool" where
  "is_digit c = (c \<in> set ''0123456789'')"

definition digit_val :: "char \<Rightarrow> int" where
  "digit_val c = int (of_char c) - 48"

definition py_int :: "string \<Rightarrow> int" where
  "py_int ds = foldl (\<lambda>a c. 10 * a + digit_val c) 0 ds"

fun str_nat :: "nat \<Rightarrow> string" where
  "str_nat n = (if n < 10 then [''0123456789'' ! n]
                else str_nat (n div 10) @ [''0123456789'' ! (n mod 10)])"

declare str_nat.simps [simp del]

definition str_int :: "int \<Rightarrow> string" where
  "str_int i = (if i < 0 then CHR ''-'' # str_nat (nat (- i)) else str_nat (nat i))"

text \<open>
  \<open>re.match(r"bytes=(\d+)-(\d*)", range_header)\<close>: anchored at the start only. Both
  groups are greedy; giving back digits of the first group never helps, since the next
  character would again be a digit and not the dash. The result is the pair of groups.
\<close>

definition match_range :: "string \<Rightarrow> (string \<times> string) option" where
  "match_range s =
     (if take 6 s = ''bytes='' then
        (let rest = drop 6 s;
             group1 = takeWhile is_digit rest
         in if group1 = [] then None
            else (case dropWhile is_digit rest of
                    [] \<Rightarrow> None
                  | c # rest' \<Rightarrow>
                      if c = CHR ''-'' then Some (group1, takeWhile is_digit rest') else None))
      else None)"

text \<open>\<open>_parse_range\<close>.\<close>

definition parse_range :: "string \<Rightarrow> int \<Rightarrow> http_exception + (int \<times> int)" where
  "parse_range range_header file_size =
     (case match_range range_header of
        None \<Rightarrow> Inl \<lparr>status_code = 416, detail = ''Invalid Range header'', exc_headers = []\<rparr>
      | Some (group1, group2) \<Rightarrow>
          (let start = py_int group1;
               end_pos = (if group2 \<noteq> [] then py_int group2 else file_size - 1)
           in if start \<ge> file_size \<or> end_pos \<ge> file_size \<or> start > end_pos
              then Inl \<lparr>status_code = 416, detail = ''Range not satisfiable'',
                        exc_headers = [(''Content-Range'', ''bytes */'' @ str_int file_size)]\<rparr>
              else Inr (start, end_pos)))"

text \<open>
  The form the specification allows, in its words: exactly \<open>bytes=START-END\<close> or
  \<open>bytes=START-\<close>, with nothing after it.
\<close>

definition well_formed_range :: "string \<Rightarrow> bool" where
  "well_formed_range s =
     (take 6 s = ''bytes='' \<and>
      takeWhile is_digit (drop 6 s) \<noteq> [] \<and>
      (case dropWhile is_digit (drop 6 s) of
         [] \<Rightarrow> False
       | c # rest' \<Rightarrow> c = CHR ''-'' \<and> list_all is_digit rest'))"

text \<open>
  \<open>_file_chunk_iterator\<close>: after \<open>f.seek(start)\<close> the loop reads at most
  \<open>min(DOWNLOAD_CHUNK_SIZE, remaining)\<close> bytes at a time and stops on an empty read. A
  buffered read of a regular file returns fewer bytes than asked only at the end of the
  file.
\<close>

type_synonym bytes = "char list"

definition DOWNLOAD_CHUNK_SIZE :: int where
  "DOWNLOAD_CHUNK_SIZE = 1024 * 1024"

function read_chunks :: "bytes \<Rightarrow> nat \<Rightarrow> int \<Rightarrow> bytes list" where
  "read_chunks data pos remaining =
     (if remaining > 0 then
        (let chunk = take (nat (min DOWNLOAD_CHUNK_SIZE remaining)) (drop pos data)
         in if chunk = [] then []
            else chunk # read_chunks data (pos + length chunk) (remaining - int (length chunk)))
      else [])"
  by pat_completeness auto
termination
  by (relation "measure (\<lambda>(data, pos, remaining). nat remaining)") (auto simp: Let_def)

declare read_chunks.simps [simp del]

datatype fs_access = IsFile string | GetSize string | Open string

definition file_chunk_iterator ::
  "(string \<rightharpoonup> bytes) \<Rightarrow> string \<Rightarrow> int \<Rightarrow> int \<Rightarrow> py_error + bytes list" where
  "file_chunk_iterator fs path start end_pos =
     (case fs path of
        None \<Rightarrow> Inl (FileNotFoundError path)
      | Some data \<Rightarrow>
          if start < 0 then Inl (OtherError ''OSError: Invalid argument'')
          else Inr (read_chunks data (nat start) (end_pos - start + 1)))"

text \<open>
  \<open>os.path.join\<close> of the standard library (POSIX): a component that starts with a
  slash, or that follows an empty path, replaces what came before; otherwise it is
  appended, after a slash unless the path already ends with one.
\<close>

fun os_path_join :: "string \<Rightarrow> string list \<Rightarrow> string" where
  "os_path_join path [] = path"
| "os_path_join path (b # p) =
     os_path_join
       (if take 1 b = ''/'' \<or> path = [] then b
        else if last path = CHR ''/'' then path @ b
        else path @ ''/'' @ b) p"

declare os_path_join.simps [simp del]

text \<open>
  The two responses \<open>download_file\<close> builds: \<open>FileResponse(path, media_type, filename,
  headers)\<close>, served with status 200, and \<open>StreamingResponse(content, status_code,
  media_type, headers)\<close>, whose content is what the chunk iterator yields.
\<close>

datatype response =
    FileResponse string string string "(string \<times> string) list"
  | StreamingResponse "py_error + bytes list" nat string "(string \<times> string) list"

text \<open>
  \<open>download_file\<close>. The file system is a map from the paths of regular files to their
  contents, so \<open>os.path.isfile\<close> is definedness and \<open>os.path.getsize\<close> the length. A
  missing or empty \<open>Range\<close> header is falsy. The second component of the result lists
  the file-system accesses made, in order (the \<open>open\<close> of the iterator included).
\<close>

definition download_file ::
  "string \<Rightarrow> (string \<rightharpoonup> bytes) \<Rightarrow> string \<Rightarrow> string \<Rightarrow> string option
     \<Rightarrow> (http_exception + response) \<times> fs_access list" where
  "download_file DATA_DIR fs job_id filename range_header =
     (if filename \<noteq> ''gmapsupp.img''
      then (Inl \<lparr>status_code = 400, detail = ''Invalid filename'', exc_headers = []\<rparr>, [])
      else
        let file_path = os_path_join DATA_DIR [job_id, filename]
        in case fs file_path of
             None \<Rightarrow> (Inl \<lparr>status_code = 404, detail = ''File not found'', exc_headers = []\<rparr>,
                      [IsFile file_path])
           | Some data \<Rightarrow>
               let file_size = int (length data)
               in case range_header of
                    None \<Rightarrow>
                      (Inr (FileResponse file_path ''application/octet-stream'' filename
                             [(''Accept-Ranges'', ''bytes''),
                              (''Content-Length'', str_int file_size)]),
                       [IsFile file_path, GetSize file_path])
                  | Some h \<Rightarrow>
                      if h = [] then
                        (Inr (FileResponse file_path ''application/octet-stream'' filename
                               [(''Accept-Ranges'', ''bytes''),
                                (''Content-Length'', str_int file_size)]),
                         [IsFile file_path, GetSize file_path])
                      else
                        (case parse_range h file_size of
                           Inl e \<Rightarrow> (Inl e, [IsFile file_path, GetSize file_path])
                         | Inr (start, end_pos) \<Rightarrow>
                             let content_length = end_pos - start + 1
                             in (Inr (StreamingResponse
                                        (file_chunk_iterator fs file_path start end_pos)
                                        206 ''application/octet-stream''
                                        [(''Accept-Ranges'', ''bytes''),
                                         (''Content-Range'',
                                            ''bytes '' @ str_int start @ ''-'' @ str_int end_pos
                                              @ ''/'' @ str_int file_size),
                                         (''Content-Length'', str_int content_length),
                                         (''Content-Disposition'',
                                            ''attachment; filename='' @ [CHR 0x22] @ filename
                                              @ [CHR 0x22])]),
                                 [IsFile file_path, GetSize file_path, Open file_path])))"

text \<open>A file system holding one ten-byte artifact, for the examples.\<close>

definition example_fs :: "string \<rightharpoonup> bytes" where
  "example_fs = [''/data/jobs/abc/gmapsupp.img'' \<mapsto> ''0123456789'']"

subsection \<open>Area validation (\<open>models/schemas.py\<close>)\<close>



subsection \<open>Effects\<close>

text \<open>
  The network, the clock, the file system and the external tools are a world \<open>'w\<close>
  that the code reaches only through the operations of an environment. What the code
  itself does, in order, is recorded as a list of events next to the world.
\<close>

datatype step = Download | Convert | Split | Compile

datatype event =
    HttpPost bbox
  | WriteFile string bytes
  | Sleep nat
  | MakeDirs string
  | UpdateState string
  | StepCall step

type_synonym 'w state = "'w \<times> event list"

subsection \<open>Fetching one tile (\<open>services/osm_downloader.py\<close>)\<close>

text \<open>
  \<open>post\<close> is \<open>client.post(OVERPASS_URL, data={"data": query})\<close> followed by
  \<open>resp.raise_for_status()\<close>, giving \<open>resp.content\<close>; the query is a function of the
  tile's four coordinates. \<open>write_file\<close> is \<open>open(output_path, "wb")\<close> with the write.
\<close>

record 'w net_env =
  post :: "bbox \<Rightarrow> 'w \<Rightarrow> (py_error + bytes) \<times> 'w"
  write_file :: "string \<Rightarrow> bytes \<Rightarrow> 'w \<Rightarrow> (py_error + unit) \<times> 'w"
  sleep :: "nat \<Rightarrow> 'w \<Rightarrow> 'w"

text \<open>The body of the \<open>try\<close> block: one attempt.\<close>

definition download_attempt ::
  "'w net_env \<Rightarrow> bbox \<Rightarrow> string \<Rightarrow> 'w state \<Rightarrow> (py_error + unit) \<times> 'w state" where
  "download_attempt env tile output_path s =
     (case s of (w, tr) \<Rightarrow>
        (case post env tile w of
           (Inl e, w1) \<Rightarrow> (Inl e, (w1, tr @ [HttpPost tile]))
         | (Inr content, w1) \<Rightarrow>
             (case write_file env output_path content w1 of
                (r, w2) \<Rightarrow> (r, (w2, tr @ [HttpPost tile, WriteFile output_path content])))))"

text \<open>
  \<open>except (httpx.HTTPError, httpx.TimeoutException)\<close>: every exception of the HTTP
  client, timeouts included, is an \<open>HTTPError\<close>; nothing else is caught.
\<close>

fun is_http_error :: "py_error \<Rightarrow> bool" where
  "is_http_error (HTTPError m) = True"
| "is_http_error e = False"

text \<open>The loop \<open>for attempt in range(2)\<close>, over the attempts still to make.\<close>

fun download_tile_loop ::
  "'w net_env \<Rightarrow> bbox \<Rightarrow> string \<Rightarrow> nat list \<Rightarrow> 'w state \<Rightarrow> (py_error + unit) \<times> 'w state" where
  "download_tile_loop env tile output_path [] s = (Inr (), s)"
| "download_tile_loop env tile output_path (attempt # rest) s =
     (case download_attempt env tile output_path s of
        (Inr u, s1) \<Rightarrow> (Inr (), s1)
      | (Inl e, s1) \<Rightarrow>
          if is_http_error e then
            (if attempt = 0
             then (case s1 of (w1, tr1) \<Rightarrow>
                     download_tile_loop env tile output_path rest
                       (sleep env 5 w1, tr1 @ [Sleep 5]))
             else (Inl e, s1))
          else (Inl e, s1))"

definition download_tile ::
  "'w net_env \<Rightarrow> bbox \<Rightarrow> string \<Rightarrow> 'w state \<Rightarrow> (py_error + unit) \<times> 'w state" where
  "download_tile env tile output_path s = download_tile_loop env tile output_path [0, 1] s"

subsection \<open>The job pipeline (\<open>tasks/map_tasks.py\<close>)\<close>

















section \<open>Theorems\<close>

subsection \<open>Evaluation helpers\<close>

lemma sqrt_16: "sqrt 16 = 4"
  using real_sqrt_abs [of 4] by simp

lemma py_round_of_int: "py_round (of_int k) = k"
  by (simp add: py_round_def)



subsection \<open>The tiling\<close>


text \<open>
  C8. For every bounding box whose area is at most the per-tile threshold \<open>T\<close>,
  \<open>_compute_tiles\<close> returns exactly the one-element list holding the input box
  unchanged. The area is the one of \<open>BBox.area_deg2\<close> (absolute spans); the signed
  product that \<open>_compute_tiles\<close> compares with \<open>T\<close> is never larger.
\<close>

theorem compute_tiles_small_single:
  assumes "area_deg2 b \<le> T"
  shows "compute_tiles b T = Inr [b]"
proof -
  have "(north b - south b) * (east b - west b) \<le> \<bar>(north b - south b) * (east b - west b)\<bar>"
    by (rule abs_ge_self)
  also have "\<dots> = area_deg2 b"
    by (simp add: area_deg2_def abs_mult)
  finally have "(north b - south b) * (east b - west b) \<le> T"
    using assms by simp
  then show ?thesis
    by (simp add: compute_tiles_def Let_def)
qed

theorem compute_tiles_small_single_witness:
  "area_deg2 \<lparr>south = 45, west = 7, north = 45.1, east = 7.1\<rparr> \<le> 0.25 \<and>
   compute_tiles \<lparr>south = 45, west = 7, north = 45.1, east = 7.1\<rparr> 0.25
     = Inr [\<lparr>south = 45, west = 7, north = 45.1, east = 7.1\<rparr>]"
proof -
  have h: "area_deg2 \<lparr>south = 45, west = 7, north = 45.1, east = 7.1\<rparr> \<le> 0.25"
    by (simp add: area_deg2_def)
  from h compute_tiles_small_single [OF h] show ?thesis by simp
qed

text \<open>
  C10 (amended). When exactly one axis of the box is inverted (\<open>north < south\<close> with
  \<open>west \<le> east\<close>, or \<open>east < west\<close> with \<open>south \<le> north\<close>) and the threshold \<open>T\<close> is
  not negative, the signed area that \<open>_compute_tiles\<close> computes is not positive, the
  fast-path test succeeds and the box is returned as a single tile, however large its
  absolute area is.
\<close>

theorem compute_tiles_one_axis_inverted:
  assumes "0 \<le> T"
    and "(north b < south b \<and> west b \<le> east b) \<or> (east b < west b \<and> south b \<le> north b)"
  shows "(north b - south b) * (east b - west b) \<le> 0 \<and> compute_tiles b T = Inr [b]"
proof -
  have "(north b - south b) * (east b - west b) \<le> 0"
    using assms(2) by (auto simp: mult_le_0_iff)
  with assms(1) show ?thesis
    by (simp add: compute_tiles_def Let_def)
qed

theorem compute_tiles_one_axis_inverted_witness:
  "(0::real) \<le> 1 / 4 \<and>
   north \<lparr>south = 46, west = 6, north = 44, east = 8\<rparr> < south \<lparr>south = 46, west = 6, north = 44, east = 8\<rparr> \<and>
   area_deg2 \<lparr>south = 46, west = 6, north = 44, east = 8\<rparr> = 4 \<and>
   compute_tiles \<lparr>south = 46, west = 6, north = 44, east = 8\<rparr> (1 / 4)
     = Inr [\<lparr>south = 46, west = 6, north = 44, east = 8\<rparr>]"
  using compute_tiles_one_axis_inverted [of "1 / 4" "\<lparr>south = 46, west = 6, north = 44, east = 8\<rparr>"]
  by (simp add: area_deg2_def)

text \<open>
  As stated, with either axis inverted, C10 fails when both are: the signed area of the
  box below is \<open>(-2) * (-2) = 4\<close>, above the threshold, and the box is split into 16
  tiles.
\<close>

theorem compute_tiles_both_axes_inverted_counterexample:
  "north \<lparr>south = 46, west = 8, north = 44, east = 6\<rparr> < south \<lparr>south = 46, west = 8, north = 44, east = 6\<rparr> \<and>
   east \<lparr>south = 46, west = 8, north = 44, east = 6\<rparr> < west \<lparr>south = 46, west = 8, north = 44, east = 6\<rparr> \<and>
   compute_tiles \<lparr>south = 46, west = 8, north = 44, east = 6\<rparr> (1 / 4)
     \<noteq> Inr [\<lparr>south = 46, west = 8, north = 44, east = 6\<rparr>] \<and>
   map_sum id length (compute_tiles \<lparr>south = 46, west = 8, north = 44, east = 6\<rparr> (1 / 4)) = Inr 16"
  by (simp add: compute_tiles_def Let_def sqrt_16 py_round_of_int [of 4, simplified]
        ensure_enough_tiles.simps grid_tiles_def upto.simps)

subsection \<open>The grid of \<open>_compute_tiles\<close>\<close>


lemma length_grid_tiles:
  assumes "0 \<le> n_lat" "0 \<le> n_lon"
  shows "int (length (grid_tiles b ls lo n_lat n_lon)) = n_lat * n_lon"
proof -
  have "length (grid_tiles b ls lo n_lat n_lon) = nat n_lat * nat n_lon"
    by (simp add: grid_tiles_def length_concat comp_def sum_list_triv)
  with assms show ?thesis by (simp add: nat_mult_distrib)
qed













subsection \<open>Range parsing\<close>

lemma digit_val_nonneg: "is_digit c \<Longrightarrow> 0 \<le> digit_val c"
  by (auto simp: is_digit_def digit_val_def)

lemma not_digit_minus: "\<not> is_digit CHR ''-''"
  by (simp add: is_digit_def)

lemma foldl_digits_nonneg:
  "0 \<le> a \<Longrightarrow> list_all is_digit ds \<Longrightarrow> 0 \<le> foldl (\<lambda>a c. 10 * a + digit_val c) a ds"
proof (induction ds arbitrary: a)
  case Nil
  then show ?case by simp
next
  case (Cons c ds)
  from Cons.prems have "0 \<le> 10 * a + digit_val c"
    using digit_val_nonneg [of c] by simp
  with Cons show ?case by simp
qed

lemma py_int_nonneg: "list_all is_digit ds \<Longrightarrow> 0 \<le> py_int ds"
  unfolding py_int_def by (rule foldl_digits_nonneg) simp_all


lemma match_range_digits:
  "match_range h = Some (g1, g2) \<Longrightarrow> list_all is_digit g1 \<and> list_all is_digit g2"
  by (auto simp: match_range_def Let_def list_all_iff split: if_splits list.splits
           dest: set_takeWhileD)

lemma parse_range_Inr:
  assumes "parse_range h file_size = Inr (s, e)"
  shows "0 \<le> s \<and> s \<le> e \<and> e < file_size"
proof -
  from assms obtain g1 g2 where m: "match_range h = Some (g1, g2)"
    by (auto simp: parse_range_def split: option.splits)
  from match_range_digits [OF m] have "0 \<le> py_int g1"
    by (simp add: py_int_nonneg)
  with assms m show ?thesis
    by (auto simp: parse_range_def Let_def split: if_splits)
qed

lemma well_formed_range_iff:
  "well_formed_range s \<longleftrightarrow>
     (\<exists>ds de. s = ''bytes='' @ ds @ ''-'' @ de \<and> ds \<noteq> [] \<and> list_all is_digit ds \<and> list_all is_digit de)"
proof
  assume w: "well_formed_range s"
  let ?r = "drop 6 s"
  from w obtain de where r: "dropWhile is_digit ?r = CHR ''-'' # de" and de: "list_all is_digit de"
    by (auto simp: well_formed_range_def split: list.splits)
  from w have t: "take 6 s = ''bytes=''" and ne: "takeWhile is_digit ?r \<noteq> []"
    by (auto simp: well_formed_range_def)
  have "s = take 6 s @ ?r" by simp
  also have "?r = takeWhile is_digit ?r @ dropWhile is_digit ?r" by simp
  finally have "s = ''bytes='' @ takeWhile is_digit ?r @ ''-'' @ de"
    using t r by simp
  moreover have "list_all is_digit (takeWhile is_digit ?r)"
    by (auto simp: list_all_iff dest: set_takeWhileD)
  ultimately show "\<exists>ds de. s = ''bytes='' @ ds @ ''-'' @ de \<and> ds \<noteq> [] \<and> list_all is_digit ds \<and> list_all is_digit de"
    using ne de by blast
next
  assume "\<exists>ds de. s = ''bytes='' @ ds @ ''-'' @ de \<and> ds \<noteq> [] \<and> list_all is_digit ds \<and> list_all is_digit de"
  then obtain ds de where s: "s = ''bytes='' @ ds @ ''-'' @ de" and a: "ds \<noteq> []" "list_all is_digit ds" "list_all is_digit de"
    by blast
  have d: "\<And>x. x \<in> set ds \<Longrightarrow> is_digit x"
    using a by (simp_all add: list_all_iff)
  have 1: "takeWhile is_digit (ds @ CHR ''-'' # de) = ds"
    using d by (simp add: takeWhile_append2 not_digit_minus)
  have 2: "dropWhile is_digit (ds @ CHR ''-'' # de) = CHR ''-'' # de"
    using d by (simp add: dropWhile_append2 not_digit_minus)
  show "well_formed_range s"
    using a by (simp add: well_formed_range_def s 1 2)
qed



text \<open>
  C2. The claim is that every Range header that is not exactly of the form
  \<open>bytes=START-END\<close> or \<open>bytes=START-\<close> is rejected as malformed. The code anchors the
  pattern at the start only: the multi-range header \<open>bytes=0-99,200-300\<close> is not of the
  allowed form, and \<open>_parse_range\<close> accepts it on a 1000-byte file, returning the range
  (0, 99) of its prefix.
\<close>

theorem parse_range_accepts_trailing:
  "\<not> well_formed_range ''bytes=0-99,200-300'' \<and>
   parse_range ''bytes=0-99,200-300'' 1000 = Inr (0, 99)"
  by (simp add: well_formed_range_def parse_range_def match_range_def is_digit_def py_int_def
        digit_val_def)

subsection \<open>Downloads\<close>

lemma chunk_size_pos: "0 < DOWNLOAD_CHUNK_SIZE"
  by (simp add: DOWNLOAD_CHUNK_SIZE_def)

lemma concat_read_chunks:
  "concat (read_chunks data pos remaining) = take (nat remaining) (drop pos data)"
proof (induction data pos remaining rule: read_chunks.induct)
  case (1 data pos remaining)
  show ?case
  proof (cases "0 < remaining")
    case False
    then show ?thesis by (simp add: read_chunks.simps [of data pos remaining])
  next
    case pos: True
    define k where "k = nat (min DOWNLOAD_CHUNK_SIZE remaining)"
    define chunk where "chunk = take k (drop pos data)"
    have k: "0 < k" "k \<le> nat remaining"
      using pos chunk_size_pos by (simp_all add: k_def)
    show ?thesis
    proof (cases "chunk = []")
      case True
      with k have "drop pos data = []" by (simp add: chunk_def)
      with True pos show ?thesis
        by (simp add: read_chunks.simps [of data pos remaining] k_def [symmetric] chunk_def [symmetric])
    next
      case False
      have step: "read_chunks data pos remaining =
              chunk # read_chunks data (pos + length chunk) (remaining - int (length chunk))"
        using pos False
        by (simp add: read_chunks.simps [of data pos remaining] k_def [symmetric]
              chunk_def [symmetric] Let_def)
      have IH: "concat (read_chunks data (pos + length chunk) (remaining - int (length chunk)))
              = take (nat (remaining - int (length chunk))) (drop (pos + length chunk) data)"
        using "1.IH" [OF pos, of chunk] False by (simp add: chunk_def k_def)
      have len: "length chunk \<le> k" by (simp add: chunk_def)
      have "chunk @ take (nat (remaining - int (length chunk))) (drop (pos + length chunk) data)
              = take (nat remaining) (drop pos data)"
      proof (cases "k \<le> length (drop pos data)")
        case True
        then have lc: "length chunk = k" by (simp add: chunk_def)
        have "nat remaining = k + nat (remaining - int k)"
          using k pos by simp
        then have "take (nat remaining) (drop pos data)
                = take k (drop pos data) @ take (nat (remaining - int k)) (drop k (drop pos data))"
          by (simp only: take_add)
        then show ?thesis
          unfolding lc by (simp add: chunk_def add.commute)
      next
        case False
        then have "chunk = drop pos data" by (simp add: chunk_def)
        moreover from False k have "length (drop pos data) \<le> nat remaining" by simp
        ultimately show ?thesis by simp
      qed
      with step IH show ?thesis by simp
    qed
  qed
qed

lemma read_chunks_bounded:
  "\<forall>c \<in> set (read_chunks data pos remaining). c \<noteq> [] \<and> int (length c) \<le> DOWNLOAD_CHUNK_SIZE"
proof (induction data pos remaining rule: read_chunks.induct)
  case (1 data pos remaining)
  show ?case
  proof (cases "0 < remaining")
    case False
    then show ?thesis by (simp add: read_chunks.simps [of data pos remaining])
  next
    case pos: True
    define chunk where "chunk = take (nat (min DOWNLOAD_CHUNK_SIZE remaining)) (drop pos data)"
    show ?thesis
    proof (cases "chunk = []")
      case True
      with pos show ?thesis
        by (simp add: read_chunks.simps [of data pos remaining] chunk_def [symmetric])
    next
      case False
      have step: "read_chunks data pos remaining =
              chunk # read_chunks data (pos + length chunk) (remaining - int (length chunk))"
        using pos False
        by (simp add: read_chunks.simps [of data pos remaining] chunk_def [symmetric] Let_def)
      have "int (length chunk) \<le> DOWNLOAD_CHUNK_SIZE"
        using chunk_size_pos by (simp add: chunk_def)
      with step False "1.IH" [OF pos, of chunk] show ?thesis
        by (simp add: chunk_def)
    qed
  qed
qed

lemma os_path_join_suffix: "suffix b (os_path_join path [job, b])"
  by (auto simp: suffix_def os_path_join.simps)

text \<open>
  C7. For every satisfiable range \<open>(START, END)\<close> (one that \<open>_parse_range\<close> returns for
  the request's non-empty Range header) on an artifact of \<open>file_size\<close> bytes, the partial
  path answers with status 206, \<open>Content-Range: bytes START-END/file_size\<close> and
  \<open>Content-Length: END-START+1\<close>, and the chunks streamed, concatenated, are exactly the
  bytes at offsets START through END inclusive: \<open>END-START+1\<close> bytes, whatever follows
  END in the file. Every chunk is non-empty and at most \<open>DOWNLOAD_CHUNK_SIZE\<close> long.
\<close>

theorem download_file_partial:
  assumes "fs (os_path_join DATA_DIR [job_id, ''gmapsupp.img'']) = Some data"
    and "h \<noteq> []"
    and "parse_range h (int (length data)) = Inr (start, end_pos)"
  shows "0 \<le> start \<and> start \<le> end_pos \<and> end_pos < int (length data) \<and>
         (\<exists>chunks.
            fst (download_file DATA_DIR fs job_id ''gmapsupp.img'' (Some h)) =
              Inr (StreamingResponse (Inr chunks) 206 ''application/octet-stream''
                     [(''Accept-Ranges'', ''bytes''),
                      (''Content-Range'',
                         ''bytes '' @ str_int start @ ''-'' @ str_int end_pos @ ''/''
                           @ str_int (int (length data))),
                      (''Content-Length'', str_int (end_pos - start + 1)),
                      (''Content-Disposition'',
                         ''attachment; filename='' @ [CHR 0x22] @ ''gmapsupp.img'' @ [CHR 0x22])]) \<and>
            concat chunks = take (nat (end_pos - start + 1)) (drop (nat start) data) \<and>
            int (length (concat chunks)) = end_pos - start + 1 \<and>
            (\<forall>i < length (concat chunks). concat chunks ! i = data ! (nat start + i)) \<and>
            (\<forall>c \<in> set chunks. c \<noteq> [] \<and> int (length c) \<le> DOWNLOAD_CHUNK_SIZE))"
proof -
  from parse_range_Inr [OF assms(3)]
  have r: "0 \<le> start" "start \<le> end_pos" "end_pos < int (length data)" by auto
  let ?chunks = "read_chunks data (nat start) (end_pos - start + 1)"
  have it: "file_chunk_iterator fs (os_path_join DATA_DIR [job_id, ''gmapsupp.img'']) start end_pos
              = Inr ?chunks"
    using assms(1) r(1) by (simp add: file_chunk_iterator_def)
  have resp: "fst (download_file DATA_DIR fs job_id ''gmapsupp.img'' (Some h)) =
              Inr (StreamingResponse (Inr ?chunks) 206 ''application/octet-stream''
                     [(''Accept-Ranges'', ''bytes''),
                      (''Content-Range'',
                         ''bytes '' @ str_int start @ ''-'' @ str_int end_pos @ ''/''
                           @ str_int (int (length data))),
                      (''Content-Length'', str_int (end_pos - start + 1)),
                      (''Content-Disposition'',
                         ''attachment; filename='' @ [CHR 0x22] @ ''gmapsupp.img'' @ [CHR 0x22])])"
    using assms it unfolding download_file_def Let_def by simp
  have cc: "concat ?chunks = take (nat (end_pos - start + 1)) (drop (nat start) data)"
    by (rule concat_read_chunks)
  have len: "int (length (concat ?chunks)) = end_pos - start + 1"
    using r by (simp add: cc)
  have nth: "\<forall>i < length (concat ?chunks). concat ?chunks ! i = data ! (nat start + i)"
    using r by (simp add: cc)
  have bd: "\<forall>c \<in> set ?chunks. c \<noteq> [] \<and> int (length c) \<le> DOWNLOAD_CHUNK_SIZE"
    by (rule read_chunks_bounded)
  from r resp cc len nth bd show ?thesis by blast
qed

theorem download_file_partial_witness:
  "example_fs (os_path_join ''/data/jobs'' [''abc'', ''gmapsupp.img'']) = Some ''0123456789'' \<and>
   ''bytes=2-5'' \<noteq> [] \<and>
   parse_range ''bytes=2-5'' (int (length ''0123456789'')) = Inr (2, 5) \<and>
   (\<exists>chunks.
      fst (download_file ''/data/jobs'' example_fs ''abc'' ''gmapsupp.img'' (Some ''bytes=2-5'')) =
        Inr (StreamingResponse (Inr chunks) 206 ''application/octet-stream''
               [(''Accept-Ranges'', ''bytes''),
                (''Content-Range'', ''bytes 2-5/10''),
                (''Content-Length'', ''4''),
                (''Content-Disposition'',
                   ''attachment; filename='' @ [CHR 0x22] @ ''gmapsupp.img'' @ [CHR 0x22])]) \<and>
      concat chunks = ''2345'')"
proof -
  have h: "example_fs (os_path_join ''/data/jobs'' [''abc'', ''gmapsupp.img'']) = Some ''0123456789''"
    "''bytes=2-5'' \<noteq> []"
    "parse_range ''bytes=2-5'' (int (length ''0123456789'')) = Inr (2, 5)"
    by (simp_all add: example_fs_def parse_range_def match_range_def is_digit_def py_int_def
          digit_val_def os_path_join.simps)
  have v: "str_int 2 = ''2''" "str_int 5 = ''5''" "str_int 10 = ''10''" "str_int 4 = ''4''"
    by (simp_all add: str_int_def str_nat.simps)
  from download_file_partial [of example_fs "''/data/jobs''" "''abc''" "''0123456789''"
         "''bytes=2-5''" 2 5] h v
  show ?thesis
    by simp blast
qed

lemma download_file_wrong_name:
  "filename \<noteq> ''gmapsupp.img'' \<Longrightarrow>
     download_file DATA_DIR fs job_id filename range_header =
        (Inl \<lparr>status_code = 400, detail = ''Invalid filename'', exc_headers = []\<rparr>, [])"
  by (simp add: download_file_def)

lemma download_file_missing:
  "fs (os_path_join DATA_DIR [job_id, ''gmapsupp.img'']) = None \<Longrightarrow>
      download_file DATA_DIR fs job_id ''gmapsupp.img'' range_header =
        (Inl \<lparr>status_code = 404, detail = ''File not found'', exc_headers = []\<rparr>,
         [IsFile (os_path_join DATA_DIR [job_id, ''gmapsupp.img''])])"
  unfolding download_file_def Let_def by simp

lemma download_file_accesses:
  "set (snd (download_file DATA_DIR fs job_id filename range_header))
     \<subseteq> {IsFile (os_path_join DATA_DIR [job_id, ''gmapsupp.img'']),
         GetSize (os_path_join DATA_DIR [job_id, ''gmapsupp.img'']),
         Open (os_path_join DATA_DIR [job_id, ''gmapsupp.img''])}"
  unfolding download_file_def Let_def
  by (simp split: option.split sum.split prod.split)

lemma download_file_served:
  assumes "fst (download_file DATA_DIR fs job_id filename range_header) = Inr resp"
  shows "filename = ''gmapsupp.img'' \<and>
      fs (os_path_join DATA_DIR [job_id, ''gmapsupp.img'']) \<noteq> None \<and>
      (\<exists>hs. resp = FileResponse (os_path_join DATA_DIR [job_id, ''gmapsupp.img''])
                     ''application/octet-stream'' ''gmapsupp.img'' hs \<or>
            (\<exists>start end_pos.
               resp = StreamingResponse
                        (file_chunk_iterator fs (os_path_join DATA_DIR [job_id, ''gmapsupp.img''])
                           start end_pos)
                        206 ''application/octet-stream'' hs))"
proof -
  let ?p = "os_path_join DATA_DIR [job_id, ''gmapsupp.img'']"
  have name: "filename = ''gmapsupp.img''"
    using assms by (cases "filename = ''gmapsupp.img''") (simp_all add: download_file_def)
  obtain data where data: "fs ?p = Some data"
    using assms unfolding name download_file_def Let_def
    by (cases "fs ?p") simp_all
  have full: "\<exists>hs. resp = FileResponse ?p ''application/octet-stream'' ''gmapsupp.img'' hs"
    if "range_header = None \<or> range_header = Some []"
    using assms that data unfolding name download_file_def Let_def by auto
  have part: "\<exists>hs start end_pos. resp = StreamingResponse (file_chunk_iterator fs ?p start end_pos)
                        206 ''application/octet-stream'' hs"
    if "range_header = Some h" "h \<noteq> []" for h
  proof (cases "parse_range h (int (length data))")
    case (Inl e)
    with assms that data show ?thesis
      unfolding name download_file_def Let_def by simp
  next
    case (Inr se)
    obtain s e where "se = (s, e)" by (cases se)
    with Inr assms that data show ?thesis
      unfolding name download_file_def Let_def by auto
  qed
  have "\<exists>hs. resp = FileResponse ?p ''application/octet-stream'' ''gmapsupp.img'' hs \<or>
            (\<exists>start end_pos. resp = StreamingResponse (file_chunk_iterator fs ?p start end_pos)
                        206 ''application/octet-stream'' hs)"
  proof (cases range_header)
    case None
    with full show ?thesis by blast
  next
    case (Some h)
    show ?thesis
    proof (cases "h = []")
      case True
      with Some full show ?thesis by blast
    next
      case False
      with Some part [of h] show ?thesis by blast
    qed
  qed
  with name data show ?thesis by simp
qed

text \<open>
  C9. Every requested filename other than \<open>gmapsupp.img\<close> is rejected with status 400
  before any file access (the access list is empty); a request for \<open>gmapsupp.img\<close> when
  the artifact is absent gives 404; every file access of a request, whatever its outcome,
  is on the path \<open>os.path.join(DATA_DIR, job_id, "gmapsupp.img")\<close>, whose name ends in
  \<open>gmapsupp.img\<close>; and every response served is for the canonical name, of an existing
  artifact, and is either the \<open>FileResponse\<close> of that path or the stream of chunks read
  from that path.
\<close>

theorem download_file_canonical_only:
  "(filename \<noteq> ''gmapsupp.img'' \<longrightarrow>
      download_file DATA_DIR fs job_id filename range_header =
        (Inl \<lparr>status_code = 400, detail = ''Invalid filename'', exc_headers = []\<rparr>, [])) \<and>
   (fs (os_path_join DATA_DIR [job_id, ''gmapsupp.img'']) = None \<longrightarrow>
      download_file DATA_DIR fs job_id ''gmapsupp.img'' range_header =
        (Inl \<lparr>status_code = 404, detail = ''File not found'', exc_headers = []\<rparr>,
         [IsFile (os_path_join DATA_DIR [job_id, ''gmapsupp.img''])])) \<and>
   set (snd (download_file DATA_DIR fs job_id filename range_header))
     \<subseteq> {IsFile (os_path_join DATA_DIR [job_id, ''gmapsupp.img'']),
         GetSize (os_path_join DATA_DIR [job_id, ''gmapsupp.img'']),
         Open (os_path_join DATA_DIR [job_id, ''gmapsupp.img''])} \<and>
   suffix ''gmapsupp.img'' (os_path_join DATA_DIR [job_id, ''gmapsupp.img'']) \<and>
   (\<forall>resp. fst (download_file DATA_DIR fs job_id filename range_header) = Inr resp \<longrightarrow>
      filename = ''gmapsupp.img'' \<and>
      fs (os_path_join DATA_DIR [job_id, ''gmapsupp.img'']) \<noteq> None \<and>
      (\<exists>hs. resp = FileResponse (os_path_join DATA_DIR [job_id, ''gmapsupp.img''])
                     ''application/octet-stream'' ''gmapsupp.img'' hs \<or>
            (\<exists>start end_pos.
               resp = StreamingResponse
                        (file_chunk_iterator fs (os_path_join DATA_DIR [job_id, ''gmapsupp.img''])
                           start end_pos)
                        206 ''application/octet-stream'' hs)))"
proof (intro conjI impI allI)
  show "download_file DATA_DIR fs job_id filename range_header =
        (Inl \<lparr>status_code = 400, detail = ''Invalid filename'', exc_headers = []\<rparr>, [])"
    if "filename \<noteq> ''gmapsupp.img''"
    using that by (rule download_file_wrong_name)
  show "download_file DATA_DIR fs job_id ''gmapsupp.img'' range_header =
        (Inl \<lparr>status_code = 404, detail = ''File not found'', exc_headers = []\<rparr>,
         [IsFile (os_path_join DATA_DIR [job_id, ''gmapsupp.img''])])"
    if "fs (os_path_join DATA_DIR [job_id, ''gmapsupp.img'']) = None"
    using that by (rule download_file_missing)
  show "set (snd (download_file DATA_DIR fs job_id filename range_header))
     \<subseteq> {IsFile (os_path_join DATA_DIR [job_id, ''gmapsupp.img'']),
         GetSize (os_path_join DATA_DIR [job_id, ''gmapsupp.img'']),
         Open (os_path_join DATA_DIR [job_id, ''gmapsupp.img''])}"
    by (rule download_file_accesses)
  show "suffix ''gmapsupp.img'' (os_path_join DATA_DIR [job_id, ''gmapsupp.img''])"
    by (rule os_path_join_suffix)
  fix resp
  assume r: "fst (download_file DATA_DIR fs job_id filename range_header) = Inr resp"
  note s = download_file_served [OF r]
  from s show "filename = ''gmapsupp.img''" by (rule conjunct1)
  from s show "fs (os_path_join DATA_DIR [job_id, ''gmapsupp.img'']) \<noteq> None"
    by (elim conjE)
  from s show "\<exists>hs. resp = FileResponse (os_path_join DATA_DIR [job_id, ''gmapsupp.img''])
                     ''application/octet-stream'' ''gmapsupp.img'' hs \<or>
            (\<exists>start end_pos.
               resp = StreamingResponse
                        (file_chunk_iterator fs (os_path_join DATA_DIR [job_id, ''gmapsupp.img''])
                           start end_pos)
                        206 ''application/octet-stream'' hs)"
    by (elim conjE)
qed

theorem download_file_canonical_only_witness:
  "''map.osm'' \<noteq> ''gmapsupp.img'' \<and>
   download_file ''/data/jobs'' example_fs ''abc'' ''map.osm'' None =
     (Inl \<lparr>status_code = 400, detail = ''Invalid filename'', exc_headers = []\<rparr>, []) \<and>
   example_fs (os_path_join ''/data/jobs'' [''xyz'', ''gmapsupp.img'']) = None \<and>
   download_file ''/data/jobs'' example_fs ''xyz'' ''gmapsupp.img'' None =
     (Inl \<lparr>status_code = 404, detail = ''File not found'', exc_headers = []\<rparr>,
      [IsFile ''/data/jobs/xyz/gmapsupp.img'']) \<and>
   fst (download_file ''/data/jobs'' example_fs ''abc'' ''gmapsupp.img'' None) =
     Inr (FileResponse ''/data/jobs/abc/gmapsupp.img'' ''application/octet-stream''
            ''gmapsupp.img'' [(''Accept-Ranges'', ''bytes''), (''Content-Length'', ''10'')])"
proof -
  have a: "''map.osm'' \<noteq> ''gmapsupp.img''" by simp
  have b: "example_fs (os_path_join ''/data/jobs'' [''xyz'', ''gmapsupp.img'']) = None"
    by (simp add: example_fs_def os_path_join.simps)
  have c: "fst (download_file ''/data/jobs'' example_fs ''abc'' ''gmapsupp.img'' None) =
     Inr (FileResponse ''/data/jobs/abc/gmapsupp.img'' ''application/octet-stream''
            ''gmapsupp.img'' [(''Accept-Ranges'', ''bytes''), (''Content-Length'', ''10'')])"
    by (simp add: download_file_def example_fs_def str_int_def str_nat.simps Let_def
          os_path_join.simps)
  have p: "os_path_join ''/data/jobs'' [''xyz'', ''gmapsupp.img''] = ''/data/jobs/xyz/gmapsupp.img''"
    by (simp add: os_path_join.simps)
  from download_file_canonical_only [of "''map.osm''" "''/data/jobs''" example_fs "''abc''" None] a
  have 1: "download_file ''/data/jobs'' example_fs ''abc'' ''map.osm'' None =
     (Inl \<lparr>status_code = 400, detail = ''Invalid filename'', exc_headers = []\<rparr>, [])"
    by blast
  from download_file_canonical_only [of "''gmapsupp.img''" "''/data/jobs''" example_fs "''xyz''" None] b
  have 2: "download_file ''/data/jobs'' example_fs ''xyz'' ''gmapsupp.img'' None =
     (Inl \<lparr>status_code = 404, detail = ''File not found'', exc_headers = []\<rparr>,
      [IsFile ''/data/jobs/xyz/gmapsupp.img''])"
    unfolding p by blast
  from a 1 b 2 c show ?thesis by (intro conjI)
qed

subsection \<open>Area validation\<close>




subsection \<open>Fetching a tile\<close>







text \<open>
  An exception that is not an \<open>HTTPError\<close> (a failing local write, say) is outside the
  \<open>except\<close> clause: it leaves \<open>_download_tile\<close> at once.
\<close>

lemma download_tile_other_error:
  assumes "post env tile w = (Inl e, w1)" "\<not> is_http_error e"
  shows "download_tile env tile path (w, tr) = (Inl e, (w1, tr @ [HttpPost tile]))"
  using assms by (simp add: download_tile_def download_attempt_def)



subsection \<open>The job pipeline\<close>

















end
